theory Spec2Isabelle
  imports Complex_Main "HOL-Library.Sublist"
begin

section \<open>Python strings\<close>

text \<open>
  A Python \<^verbatim>\<open>str\<close> is a sequence of Unicode code points, so it is modelled as a list of
  natural numbers. \<open>ustr\<close> turns an ASCII literal into such a list. The lead symbols of the
  two message formats are written with the code points the source file contains.
\<close>

type_synonym pystr = "nat list"

definition ustr :: "string \<Rightarrow> pystr" where
  "ustr s = map of_char s"

text \<open>The code points for which \<^verbatim>\<open>str.isspace\<close> holds; \<^verbatim>\<open>str.split()\<close> and
  \<^verbatim>\<open>str.strip()\<close> without arguments use exactly this set.\<close>

definition whitespace_codepoints :: "nat list" where
  "whitespace_codepoints =
     [0x09, 0x0A, 0x0B, 0x0C, 0x0D, 0x1C, 0x1D, 0x1E, 0x1F, 0x20, 0x85, 0xA0, 0x1680,
      0x2000, 0x2001, 0x2002, 0x2003, 0x2004, 0x2005, 0x2006, 0x2007, 0x2008, 0x2009, 0x200A,
      0x2028, 0x2029, 0x202F, 0x205F, 0x3000]"

definition isspace :: "nat \<Rightarrow> bool" where
  "isspace c = (c \<in> set whitespace_codepoints)"

text \<open>\<^verbatim>\<open>text.split()\<close>: skip whitespace, then cut one word up to the next whitespace.\<close>

function split_ws :: "pystr \<Rightarrow> pystr list" where
  "split_ws [] = []"
| "split_ws (c # cs) =
     (if isspace c then split_ws cs
      else (c # takeWhile (\<lambda>x. \<not> isspace x) cs) # split_ws (dropWhile (\<lambda>x. \<not> isspace x) cs))"
  by pat_completeness auto
termination
  by (relation "measure length") (auto simp: less_Suc_eq_le length_dropWhile_le)

text \<open>\<^verbatim>\<open>sep.join(words)\<close>.\<close>

fun join :: "pystr \<Rightarrow> pystr list \<Rightarrow> pystr" where
  "join sep [] = []"
| "join sep [w] = w"
| "join sep (w # v # ws) = w @ sep @ join sep (v # ws)"

text \<open>\<^verbatim>\<open>text.replace(old, new)\<close> where \<open>old\<close> is a single character, the only way the
  source calls it.\<close>

definition replace_char :: "pystr \<Rightarrow> nat \<Rightarrow> pystr \<Rightarrow> pystr" where
  "replace_char s old new = concat (map (\<lambda>c. if c = old then new else [c]) s)"

text \<open>\<^verbatim>\<open>text.strip()\<close>.\<close>

definition strip :: "pystr \<Rightarrow> pystr" where
  "strip s = rev (dropWhile isspace (rev (dropWhile isspace s)))"

text \<open>\<^verbatim>\<open>text.rstrip()\<close>, the right half of \<open>strip\<close>.\<close>

definition rstrip :: "pystr \<Rightarrow> pystr" where
  "rstrip s = rev (dropWhile isspace (rev s))"

section \<open>clean_text\<close>

definition markdown_chars :: "nat list" where
  "markdown_chars = ustr ''_*[]()~`>#+-=|{}.!''"

definition clean_text :: "pystr \<Rightarrow> bool \<Rightarrow> pystr" where
  "clean_text s for_markdown =
     (let s' = (if for_markdown
                then foldl (\<lambda>t char. replace_char t char [0x5C, char]) s markdown_chars
                else replace_char s 0x5C [])
      in join [0x20] (split_ws s'))"

text \<open>
  The specification's wording of the normalisation, to compare \<open>clean_text\<close> with:
  every maximal run of whitespace becomes one space (\<open>squeeze\<close>), then the ends are
  trimmed; and the escaping of the markdown characters in one pass.
\<close>

function squeeze :: "pystr \<Rightarrow> pystr" where
  "squeeze [] = []"
| "squeeze (c # cs) =
     (if isspace c then 0x20 # squeeze (dropWhile isspace cs) else c # squeeze cs)"
  by pat_completeness auto
termination
  by (relation "measure length") (auto simp: less_Suc_eq_le length_dropWhile_le)

definition collapse_whitespace :: "pystr \<Rightarrow> pystr" where
  "collapse_whitespace s = strip (squeeze s)"

definition escape_markdown :: "pystr \<Rightarrow> pystr" where
  "escape_markdown s =
     concat (map (\<lambda>c. if c \<in> set markdown_chars then [0x5C, c] else [c]) s)"

definition strip_backslashes :: "pystr \<Rightarrow> pystr" where
  "strip_backslashes s = filter (\<lambda>c. c \<noteq> 0x5C) s"

section \<open>Items, snapshots and the change detector\<close>

text \<open>
  An item is the dict that \<^verbatim>\<open>parse_content\<close> builds: \<^verbatim>\<open>title\<close> and \<^verbatim>\<open>link\<close> always,
  \<^verbatim>\<open>date\<close> and \<^verbatim>\<open>author\<close> only for the announcements. A snapshot is a Python dict from
  section name to a list of items; dicts keep insertion order, so it is an association
  list, read with the first entry of a key.
\<close>

record item =
  title :: pystr
  link :: pystr
  date :: "pystr option"
  author :: "pystr option"

type_synonym snapshot = "(pystr \<times> item list) list"

definition keys :: "('k \<times> 'v) list \<Rightarrow> 'k list" where
  "keys d = map fst d"

definition values_of :: "('k \<times> 'v) list \<Rightarrow> 'v list" where
  "values_of d = map snd d"

text \<open>\<^verbatim>\<open>d.get(key)\<close> and \<^verbatim>\<open>d.get(key, default)\<close>.\<close>

fun dict_get :: "('k \<times> 'v) list \<Rightarrow> 'k \<Rightarrow> 'v option" where
  "dict_get [] key = None"
| "dict_get ((k, v) # d) key = (if k = key then Some v else dict_get d key)"

definition dict_get_default :: "('k \<times> 'v) list \<Rightarrow> 'k \<Rightarrow> 'v \<Rightarrow> 'v" where
  "dict_get_default d key dflt = (case dict_get d key of None \<Rightarrow> dflt | Some v \<Rightarrow> v)"

definition find_new_notifications ::
  "('k \<times> 'a list) list \<Rightarrow> ('k \<times> 'a list) list \<Rightarrow> ('k \<times> 'a list) list" where
  "find_new_notifications current previous =
     map (\<lambda>section.
            (section,
             filter (\<lambda>item. item \<notin> set (dict_get_default previous section []))
                    (dict_get_default current section [])))
         (keys current)"

section \<open>The parsed page\<close>

text \<open>
  \<^verbatim>\<open>BeautifulSoup(content, 'html.parser')\<close> is a library call; the model starts from the
  tree it returns. A tag carries its name, its \<^verbatim>\<open>class\<close> list, its \<^verbatim>\<open>href\<close> attribute when
  it has one, and its children; these are the only parts the source reads.
\<close>

datatype node =
    Tag string "string list" "pystr option" "node list"
  | NavigableString pystr

fun descendants :: "node \<Rightarrow> node list" where
  "descendants (Tag name classes href contents) =
     concat (map (\<lambda>c. c # descendants c) contents)"
| "descendants (NavigableString s) = []"

text \<open>The filter of \<^verbatim>\<open>find\<close>, \<^verbatim>\<open>find_all\<close> and \<^verbatim>\<open>select\<close>: a tag name out of a list and,
  when given, a class.\<close>

fun matches :: "string list \<Rightarrow> string option \<Rightarrow> node \<Rightarrow> bool" where
  "matches names cls (Tag name classes href contents) =
     (name \<in> set names \<and> (case cls of None \<Rightarrow> True | Some c \<Rightarrow> c \<in> set classes))"
| "matches names cls (NavigableString s) = False"

definition find_all :: "node \<Rightarrow> string list \<Rightarrow> string option \<Rightarrow> node list" where
  "find_all n names cls = filter (matches names cls) (descendants n)"

definition find_first :: "node \<Rightarrow> string list \<Rightarrow> string option \<Rightarrow> node option" where
  "find_first n names cls =
     (case find_all n names cls of [] \<Rightarrow> None | x # xs \<Rightarrow> Some x)"

text \<open>\<^verbatim>\<open>tag['href']\<close>: \<open>None\<close> stands for the \<^verbatim>\<open>KeyError\<close>.\<close>

fun get_href :: "node \<Rightarrow> pystr option" where
  "get_href (Tag name classes href contents) = href"
| "get_href (NavigableString s) = None"

fun tag_name :: "node \<Rightarrow> string option" where
  "tag_name (Tag name classes href contents) = Some name"
| "tag_name (NavigableString s) = None"

fun node_string :: "node \<Rightarrow> pystr list" where
  "node_string (NavigableString s) = [s]"
| "node_string (Tag name classes href contents) = []"

text \<open>\<^verbatim>\<open>tag.get_text(strip=True)\<close>: every string below the tag is stripped, the empty ones
  are left out, and the rest is concatenated.\<close>

definition get_text :: "node \<Rightarrow> pystr" where
  "get_text n =
     concat (filter (\<lambda>s. s \<noteq> []) (map strip (concat (map node_string (descendants n)))))"

section \<open>parse_content\<close>

definition initial_notifications :: snapshot where
  "initial_notifications =
     [(ustr ''Latest Announcements'', []),
      (ustr ''Exam Notifications'', []),
      (ustr ''Office Notifications'', []),
      (ustr ''Scholarship Section'', []),
      (ustr ''Application Formats'', []),
      (ustr ''Cultural Events'', []),
      (ustr ''Technical Clubs'', []),
      (ustr ''IEEE & CSI'', [])]"

definition sections_map :: "(pystr \<times> pystr) list" where
  "sections_map =
     [(ustr ''Latest announcements'', ustr ''Latest Announcements''),
      (ustr ''Exam Notifications'', ustr ''Exam Notifications''),
      (ustr ''Office Notifications'', ustr ''Office Notifications''),
      (ustr ''Scholarship Section'', ustr ''Scholarship Section''),
      (ustr ''Application Formats'', ustr ''Application Formats''),
      (ustr ''Cultural Events'', ustr ''Cultural Events''),
      (ustr ''Technical Clubs'', ustr ''Technical Clubs''),
      (ustr ''IEEE & CSI'', ustr ''IEEE & CSI'')]"

text \<open>The recognized categories, in the order of the dict literal.\<close>

definition recognized_categories :: "pystr list" where
  "recognized_categories =
     [ustr ''Latest Announcements'', ustr ''Exam Notifications'', ustr ''Office Notifications'',
      ustr ''Scholarship Section'', ustr ''Application Formats'', ustr ''Cultural Events'',
      ustr ''Technical Clubs'', ustr ''IEEE & CSI'']"

text \<open>\<^verbatim>\<open>notifications[section_key].append(x)\<close>. On a missing key Python raises
  \<^verbatim>\<open>KeyError\<close>, which the loop body catches and skips the entry: the dict is unchanged.\<close>

definition append_item :: "snapshot \<Rightarrow> pystr \<Rightarrow> item \<Rightarrow> snapshot" where
  "append_item notifications section_key x =
     map (\<lambda>(k, v). if k = section_key then (k, v @ [x]) else (k, v)) notifications"

text \<open>
  One entry of the announcements block. \<open>None\<close> is an entry that is skipped: no anchor
  (\<^verbatim>\<open>continue\<close>), no \<^verbatim>\<open>href\<close> (\<^verbatim>\<open>KeyError\<close>), no date or name \<^verbatim>\<open>div\<close> (\<^verbatim>\<open>AttributeError\<close> on
  \<^verbatim>\<open>None\<close>); the \<^verbatim>\<open>except\<close> of the loop body catches the exceptions.
\<close>

definition latest_announcement_entry :: "node \<Rightarrow> item option" where
  "latest_announcement_entry it =
     (case find_first it [''a''] None of
        None \<Rightarrow> None
      | Some anchor \<Rightarrow>
        (case get_href anchor of
           None \<Rightarrow> None
         | Some lnk \<Rightarrow>
           (case find_first it [''div''] (Some ''date'') of
              None \<Rightarrow> None
            | Some date_div \<Rightarrow>
              (case find_first it [''div''] (Some ''name'') of
                 None \<Rightarrow> None
               | Some name_div \<Rightarrow>
                 Some \<lparr>title = clean_text (get_text anchor) False, link = lnk,
                       date = Some (get_text date_div), author = Some (get_text name_div)\<rparr>))))"

text \<open>One entry of any other block: an \<^verbatim>\<open>a\<close> element, or an \<^verbatim>\<open>li\<close> element with an anchor.\<close>

definition simple_entry :: "node \<Rightarrow> item option" where
  "simple_entry it =
     (if tag_name it = Some ''a'' then
        (case get_href it of
           None \<Rightarrow> None
         | Some lnk \<Rightarrow>
           Some \<lparr>title = clean_text (get_text it) False, link = lnk, date = None, author = None\<rparr>)
      else if tag_name it = Some ''li'' then
        (case find_first it [''a''] None of
           None \<Rightarrow> None
         | Some anchor \<Rightarrow>
           (case get_href anchor of
              None \<Rightarrow> None
            | Some lnk \<Rightarrow>
              Some \<lparr>title = clean_text (replace_char (get_text it) 0x0A [0x20]) False, link = lnk,
                    date = None, author = None\<rparr>))
      else None)"

definition process_item :: "pystr \<Rightarrow> snapshot \<Rightarrow> node \<Rightarrow> snapshot" where
  "process_item section_key notifications it =
     (case (if section_key = ustr ''Latest Announcements''
            then latest_announcement_entry it else simple_entry it) of
        None \<Rightarrow> notifications
      | Some x \<Rightarrow> append_item notifications section_key x)"

definition process_section :: "snapshot \<Rightarrow> node \<Rightarrow> snapshot" where
  "process_section notifications section =
     (case find_first section [''h2''] None of
        None \<Rightarrow> notifications
      | Some header \<Rightarrow>
        (case dict_get sections_map (get_text header) of
           None \<Rightarrow> notifications
         | Some section_key \<Rightarrow>
           if section_key = [] then notifications
           else
             (case find_first section [''div''] (Some ''content'') of
                None \<Rightarrow> notifications
              | Some content_div \<Rightarrow>
                let items = (if section_key = ustr ''Latest Announcements''
                             then find_all content_div [''li''] (Some ''post'')
                             else find_all content_div [''a'', ''li''] None)
                in foldl (process_item section_key) notifications items)))"

text \<open>The argument is the parsed document; \<^verbatim>\<open>soup.select('section.block')\<close> is the list of
  its \<^verbatim>\<open>section\<close> tags of class \<^verbatim>\<open>block\<close>.\<close>

definition parse_content :: "node \<Rightarrow> snapshot" where
  "parse_content soup =
     foldl process_section initial_notifications (find_all soup [''section''] (Some ''block''))"

section \<open>Message formats\<close>

definition format_telegram_message :: "pystr \<Rightarrow> item \<Rightarrow> pystr" where
  "format_telegram_message section it =
     (let clean_section = clean_text section False;
          clean_title = clean_text (title it) False;
          lnk = link it;
          base = [0xF0, 0x178, 0x201C, 0xA3] @ ustr '' New '' @ clean_section @ ustr ''!''
                 @ [0x0A, 0x0A] @ clean_title @ [0x0A]
                 @ [0xF0, 0x178, 0x201D, 0x2014] @ ustr '' '' @ lnk
      in case (date it, author it) of
           (Some d, Some a) \<Rightarrow>
             base @ [0x0A] @ [0xF0, 0x178, 0x2014, 0x201C] @ ustr '' '' @ clean_text d False
                  @ [0x0A] @ [0xF0, 0x178, 0x2018, 0xA4] @ ustr '' '' @ clean_text a False
         | _ \<Rightarrow> base)"

definition format_whatsapp_message :: "pystr \<Rightarrow> item \<Rightarrow> pystr" where
  "format_whatsapp_message section it =
     (let message = [0xF0, 0x178, 0x201C, 0xA2] @ ustr '' New '' @ section @ ustr '' Alert!''
                    @ [0x0A] @ title it @ [0x0A]
                    @ [0xF0, 0x178, 0x201D, 0x2014] @ ustr '' '' @ link it
      in case (date it, author it) of
           (Some d, Some a) \<Rightarrow>
             message @ [0x0A] @ [0xF0, 0x178, 0x2014, 0x201C] @ ustr '' '' @ d
                     @ [0x0A] @ [0xF0, 0x178, 0x2018, 0xA4] @ ustr '' '' @ a
         | _ \<Rightarrow> message)"

text \<open>
  The specification's wording of a rendering, to compare the Telegram format with: the
  label, title, date and author pass through a normalisation \<open>normalise\<close>, the link does not.
\<close>

definition telegram_rendering :: "(pystr \<Rightarrow> pystr) \<Rightarrow> pystr \<Rightarrow> item \<Rightarrow> pystr" where
  "telegram_rendering normalise section it =
     [0xF0, 0x178, 0x201C, 0xA3] @ ustr '' New '' @ normalise section @ ustr ''!'' @ [0x0A, 0x0A]
     @ normalise (title it) @ [0x0A] @ [0xF0, 0x178, 0x201D, 0x2014] @ ustr '' '' @ link it
     @ (case (date it, author it) of
          (Some d, Some a) \<Rightarrow>
            [0x0A] @ [0xF0, 0x178, 0x2014, 0x201C] @ ustr '' '' @ normalise d
            @ [0x0A] @ [0xF0, 0x178, 0x2018, 0xA4] @ ustr '' '' @ normalise a
        | _ \<Rightarrow> [])"

section \<open>Effects: awaited calls, exceptions, the trace\<close>

text \<open>
  Every awaited call either returns or raises. \<open>CancelledError\<close> derives from
  \<^verbatim>\<open>BaseException\<close>, so \<^verbatim>\<open>except Exception\<close> does not catch it; \<open>Exception\<close> stands for
  any exception that derives from \<^verbatim>\<open>Exception\<close> (transport errors, storage errors).
  What the program does to the outside world is recorded as a list of events.
\<close>

datatype exn = CancelledError | Exception

datatype 'a outcome = Returns 'a | Raises exn

fun raised :: "'a outcome \<Rightarrow> bool" where
  "raised (Raises e) = True"
| "raised (Returns x) = False"

datatype level = INFO | WARNING | ERROR

datatype event =
    HttpGet
  | LoadState
  | SaveState snapshot
  | TelegramSendItems "pystr list"
  | WhatsAppPost pystr
  | Sleep real
  | Log level string

section \<open>WhatsAppSender\<close>

text \<open>
  What the network does at one message: the outcome of the \<^verbatim>\<open>post\<close> (an HTTP status, or an
  exception), the outcome of \<^verbatim>\<open>await resp.text()\<close>, which \<^verbatim>\<open>_send_one\<close> awaits only when the
  status is not 200 (the text of the response, or an exception), and the outcome of the
  pacing \<^verbatim>\<open>asyncio.sleep\<close> after it. The environment of a call of \<^verbatim>\<open>send_items\<close> gives
  one such triple per attempt, counted from 0.
\<close>

record attempt =
  post :: "nat outcome"
  read_text :: "pystr outcome"
  pause :: "unit outcome"

text \<open>\<^verbatim>\<open>_send_one\<close>. Nothing in it is caught: an exception of the post, or of the read of
  the text of a response whose status is not 200, leaves it, before anything is logged.\<close>

definition send_one :: "attempt \<Rightarrow> pystr \<Rightarrow> event list \<times> unit outcome" where
  "send_one a body =
     (case post a of
        Raises e \<Rightarrow> ([WhatsAppPost body], Raises e)
      | Returns status \<Rightarrow>
          if status \<noteq> 200
          then (case read_text a of
                  Raises e \<Rightarrow> ([WhatsAppPost body], Raises e)
                | Returns txt \<Rightarrow>
                    ([WhatsAppPost body, Log ERROR ''Failed to send WhatsApp message''],
                     Returns ()))
          else ([WhatsAppPost body, Log INFO ''WhatsApp message sent successfully''], Returns ()))"

text \<open>The attempts in which \<^verbatim>\<open>_send_one\<close> returns: the post returns a status, and when
  the status is not 200 the text of the response can be read.\<close>

definition response_handled :: "attempt \<Rightarrow> bool" where
  "response_handled a =
     (case post a of
        Raises e \<Rightarrow> False
      | Returns status \<Rightarrow> (if status \<noteq> 200 then \<not> raised (read_text a) else True))"

text \<open>The \<^verbatim>\<open>for\<close> loop of \<^verbatim>\<open>send_items\<close>, from attempt number \<open>k\<close> on.\<close>

fun send_loop :: "(nat \<Rightarrow> attempt) \<Rightarrow> nat \<Rightarrow> pystr list \<Rightarrow> real \<Rightarrow> event list \<times> unit outcome" where
  "send_loop net k [] spacing_seconds = ([], Returns ())"
| "send_loop net k (message # messages) spacing_seconds =
     (case send_one (net k) message of
        (ev, Raises e) \<Rightarrow> (ev, Raises e)
      | (ev, Returns u) \<Rightarrow>
        (case pause (net k) of
           Raises e \<Rightarrow> (ev @ [Sleep spacing_seconds], Raises e)
         | Returns u' \<Rightarrow>
           (case send_loop net (Suc k) messages spacing_seconds of
              (ev', r) \<Rightarrow> (ev @ [Sleep spacing_seconds] @ ev', r))))"

definition send_items :: "(nat \<Rightarrow> attempt) \<Rightarrow> pystr list \<Rightarrow> real \<Rightarrow> event list \<times> unit outcome" where
  "send_items net messages spacing_seconds =
     (case send_loop net 0 messages spacing_seconds of
        (ev, r) \<Rightarrow> (Log INFO ''WhatsAppSender received messages to send'' # ev, r))"

definition default_spacing_seconds :: real where
  "default_spacing_seconds = 0.7"

text \<open>The bodies of the posts of a trace, in order: the send attempts.\<close>

fun posts_of :: "event list \<Rightarrow> pystr list" where
  "posts_of [] = []"
| "posts_of (WhatsAppPost body # evs) = body # posts_of evs"
| "posts_of (e # evs) = posts_of evs"

section \<open>The bot: one cycle and the periodic loop\<close>

text \<open>
  The configuration the cycle reads: whether each sender was registered by \<^verbatim>\<open>_on_init\<close>,
  and \<^verbatim>\<open>CHECK_INTERVAL\<close>.
\<close>

record bot =
  telegram_sender :: bool
  whatsapp_sender :: bool
  check_interval :: real

datatype response = Response nat node

text \<open>
  What the outside world does during one cycle: the outcome of the page request (status
  and parsed body, or an exception), of \<^verbatim>\<open>load_state\<close>, of the Telegram sender, of the
  WhatsApp network, of \<^verbatim>\<open>save_state\<close>, and of the sleep between two cycles.

  Modelled from the spec: \<^verbatim>\<open>TelegramSender.send_items\<close> (its file is not among the
  sources) takes the ordered messages and returns or raises; \<^verbatim>\<open>MongoStorage\<close> (its file is
  not among the sources) keeps one snapshot, \<^verbatim>\<open>load_state\<close> returns it and
  \<^verbatim>\<open>save_state\<close> replaces it, unless the call raises.
\<close>

record world =
  fetch :: "response outcome"
  load_raises :: "exn option"
  telegram :: "unit outcome"
  whatsapp :: "nat \<Rightarrow> attempt"
  save_raises :: "exn option"
  tick :: "unit outcome"

definition get_latest_notifications :: "response outcome \<Rightarrow> event list \<times> snapshot outcome" where
  "get_latest_notifications resp =
     (case resp of
        Returns (Response status content) \<Rightarrow>
          if status = 200 then ([HttpGet], Returns (parse_content content))
          else ([HttpGet, Log ERROR ''HTTP Error''], Returns [])
      | Raises Exception \<Rightarrow> ([HttpGet, Log ERROR ''Fetch error''], Returns [])
      | Raises CancelledError \<Rightarrow> ([HttpGet], Raises CancelledError))"

definition load_state :: "world \<Rightarrow> snapshot \<Rightarrow> event list \<times> snapshot outcome" where
  "load_state w persisted =
     (case load_raises w of
        Some e \<Rightarrow> ([LoadState], Raises e)
      | None \<Rightarrow> ([LoadState], Returns persisted))"

definition telegram_messages :: "snapshot \<Rightarrow> pystr list" where
  "telegram_messages new_notifications =
     concat (map (\<lambda>(section, items). map (format_telegram_message section) items)
                 new_notifications)"

definition whatsapp_messages :: "snapshot \<Rightarrow> pystr list" where
  "whatsapp_messages new_notifications =
     concat (map (\<lambda>(section, items). map (format_whatsapp_message section) items)
                 new_notifications)"

definition send_notifications :: "bot \<Rightarrow> world \<Rightarrow> snapshot \<Rightarrow> event list \<times> unit outcome" where
  "send_notifications b w new_notifications =
     (let tm = telegram_messages new_notifications;
          wm = whatsapp_messages new_notifications
      in case (if telegram_sender b \<and> tm \<noteq> []
               then ([TelegramSendItems tm], telegram w) else ([], Returns ())) of
           (ev, Raises e) \<Rightarrow> (ev, Raises e)
         | (ev, Returns u) \<Rightarrow>
             if whatsapp_sender b \<and> wm \<noteq> []
             then (case send_items (whatsapp w) wm default_spacing_seconds of
                     (ev', r) \<Rightarrow>
                       (ev @ Log INFO ''Attempting to send WhatsApp messages...'' # ev', r))
             else (ev, Returns ()))"

text \<open>\<^verbatim>\<open>any(new_notifications.values())\<close>: some section has a non-empty list.\<close>

definition any_values :: "('k \<times> 'a list) list \<Rightarrow> bool" where
  "any_values d = list_ex (\<lambda>v. v \<noteq> []) (values_of d)"

text \<open>One cycle: the trace, the persisted state after it, and how the call ended.\<close>

definition check_for_updates :: "bot \<Rightarrow> world \<Rightarrow> snapshot \<Rightarrow> event list \<times> snapshot \<times> unit outcome" where
  "check_for_updates b w persisted =
     (case get_latest_notifications (fetch w) of
        (ev1, Raises e) \<Rightarrow> (ev1, persisted, Raises e)
      | (ev1, Returns current) \<Rightarrow>
        (case load_state w persisted of
           (ev2, Raises e) \<Rightarrow> (ev1 @ ev2, persisted, Raises e)
         | (ev2, Returns previous) \<Rightarrow>
           let new_notifications = find_new_notifications current previous
           in if any_values new_notifications then
                (case send_notifications b w new_notifications of
                   (ev3, Raises e) \<Rightarrow> (ev1 @ ev2 @ ev3, persisted, Raises e)
                 | (ev3, Returns u) \<Rightarrow>
                   (case save_raises w of
                      Some e \<Rightarrow> (ev1 @ ev2 @ ev3 @ [SaveState current], persisted, Raises e)
                    | None \<Rightarrow>
                        (ev1 @ ev2 @ ev3 @ [SaveState current, Log INFO ''Saved state to MongoDB''],
                         current, Returns ())))
              else (ev1 @ ev2, persisted, Returns ())))"

text \<open>
  The loop runs for ever, so it is run on a finite list of worlds, one per cycle: the
  behaviour of the outside during the first cycles. \<open>Ticking\<close> is the loop that has gone
  through all of them and is alive, about to start the next cycle; \<open>Returned\<close> is the
  loop left through \<^verbatim>\<open>except asyncio.CancelledError: pass\<close>; \<open>Died\<close> is the task ended by any
  other exception, after which no cycle runs.
\<close>

datatype loop_end = Ticking | Returned | Died exn

fun ticker_loop :: "bot \<Rightarrow> world list \<Rightarrow> snapshot \<Rightarrow> event list \<times> snapshot \<times> loop_end" where
  "ticker_loop b [] persisted = ([], persisted, Ticking)"
| "ticker_loop b (w # ws) persisted =
     (case check_for_updates b w persisted of
        (ev, persisted', Raises CancelledError) \<Rightarrow> (ev, persisted', Returned)
      | (ev, persisted', Raises Exception) \<Rightarrow> (ev, persisted', Died Exception)
      | (ev, persisted', Returns u) \<Rightarrow>
        (case tick w of
           Raises CancelledError \<Rightarrow> (ev @ [Sleep (check_interval b)], persisted', Returned)
         | Raises Exception \<Rightarrow> (ev @ [Sleep (check_interval b)], persisted', Died Exception)
         | Returns u' \<Rightarrow>
           (case ticker_loop b ws persisted' of
              (ev', persisted'', r) \<Rightarrow>
                (ev @ [Sleep (check_interval b)] @ ev', persisted'', r))))"

text \<open>The events that call a channel sender, and the events that call \<^verbatim>\<open>save_state\<close>.\<close>

fun is_send :: "event \<Rightarrow> bool" where
  "is_send (TelegramSendItems ms) = True"
| "is_send (WhatsAppPost body) = True"
| "is_send e = False"

fun is_save :: "event \<Rightarrow> bool" where
  "is_save (SaveState s) = True"
| "is_save e = False"

text \<open>A request that fails: a status other than 200, or a transport error.\<close>

fun fetch_failed :: "response outcome \<Rightarrow> bool" where
  "fetch_failed (Returns (Response status content)) = (status \<noteq> 200)"
| "fetch_failed (Raises Exception) = True"
| "fetch_failed (Raises CancelledError) = False"




section \<open>A page, a bot and a world to evaluate the model on\<close>

text \<open>
  The page of the end-to-end scenario: one announcement, titled \<^verbatim>\<open>Exam Postponed\<close>, with
  link \<^verbatim>\<open>/x\<close>, date \<^verbatim>\<open>2024-01-01\<close> and author \<^verbatim>\<open>Admin\<close>; the snapshot that
  \<open>parse_content\<close> makes of it; a bot with both senders; and a world in which every call
  succeeds.
\<close>

definition example_item :: item where
  "example_item = \<lparr>title = ustr ''Exam Postponed'', link = ustr ''/x'',
                    date = Some (ustr ''2024-01-01''), author = Some (ustr ''Admin'')\<rparr>"

definition example_page :: node where
  "example_page =
     Tag ''[document]'' [] None
       [Tag ''section'' [''block''] None
          [Tag ''h2'' [] None [NavigableString (ustr ''Latest announcements'')],
           Tag ''div'' [''content''] None
             [Tag ''li'' [''post''] None
                [Tag ''a'' [] (Some (ustr ''/x'')) [NavigableString (ustr ''Exam Postponed'')],
                 Tag ''div'' [''date''] None [NavigableString (ustr ''2024-01-01'')],
                 Tag ''div'' [''name''] None [NavigableString (ustr ''Admin'')]]]]]"

definition example_snapshot :: snapshot where
  "example_snapshot =
     [(ustr ''Latest Announcements'', [example_item]),
      (ustr ''Exam Notifications'', []),
      (ustr ''Office Notifications'', []),
      (ustr ''Scholarship Section'', []),
      (ustr ''Application Formats'', []),
      (ustr ''Cultural Events'', []),
      (ustr ''Technical Clubs'', []),
      (ustr ''IEEE & CSI'', [])]"


definition example_bot :: bot where
  "example_bot = \<lparr>telegram_sender = True, whatsapp_sender = True, check_interval = 300\<rparr>"

definition quiet_world :: world where
  "quiet_world =
     \<lparr>fetch = Returns (Response 200 example_page), load_raises = None,
      telegram = Returns (), whatsapp = (\<lambda>k. \<lparr>post = Returns 200, read_text = Returns [], pause = Returns ()\<rparr>),
      save_raises = None, tick = Returns ()\<rparr>"


section \<open>Facts about the string functions\<close>

lemma isspace_space: "isspace 0x20"
  by (simp add: isspace_def whitespace_codepoints_def)

lemma replace_char_append:
  "replace_char (xs @ ys) old new = replace_char xs old new @ replace_char ys old new"
  by (simp add: replace_char_def)

lemma replace_char_concat:
  "replace_char (concat xss) old new = concat (map (\<lambda>xs. replace_char xs old new) xss)"
  by (induction xss) (simp_all add: replace_char_def)

lemma replace_char_delete: "replace_char s old [] = filter (\<lambda>c. c \<noteq> old) s"
  by (induction s) (simp_all add: replace_char_def)

lemma sequential_escape:
  "distinct cs \<Longrightarrow> b \<notin> set cs \<Longrightarrow>
   foldl (\<lambda>t char. replace_char t char [b, char]) text cs =
   concat (map (\<lambda>c. if c \<in> set cs then [b, c] else [c]) text)"
proof (induction cs rule: rev_induct)
  case Nil
  show ?case by simp
next
  case (snoc c cs)
  then have IH: "foldl (\<lambda>t char. replace_char t char [b, char]) text cs =
     concat (map (\<lambda>c. if c \<in> set cs then [b, c] else [c]) text)"
    and c: "c \<notin> set cs" "b \<noteq> c" by auto
  have "replace_char (if x \<in> set cs then [b, x] else [x]) c [b, c] =
        (if x \<in> set (cs @ [c]) then [b, x] else [x])" for x
    using c by (auto simp: replace_char_def)
  then show ?case
    by (simp add: IH replace_char_concat o_def)
qed

lemma squeeze_nonspace_prefix:
  "\<forall>x\<in>set xs. \<not> isspace x \<Longrightarrow> squeeze (xs @ ys) = xs @ squeeze ys"
  by (induction xs) simp_all

lemma squeeze_head:
  "s = [] \<or> \<not> isspace (hd s) \<Longrightarrow> dropWhile isspace (squeeze s) = squeeze s"
  by (cases s) auto

lemma dropWhile_head: "dropWhile P s = [] \<or> \<not> P (hd (dropWhile P s))"
  by (metis hd_dropWhile)

lemma dropWhile_squeeze: "dropWhile isspace (squeeze s) = squeeze (dropWhile isspace s)"
proof (cases s)
  case Nil
  then show ?thesis by simp
next
  case (Cons c cs)
  show ?thesis
  proof (cases "isspace c")
    case True
    have "dropWhile isspace (squeeze (dropWhile isspace cs)) = squeeze (dropWhile isspace cs)"
      by (rule squeeze_head) (rule dropWhile_head)
    with True Cons show ?thesis by (simp add: isspace_space)
  next
    case False
    with Cons show ?thesis by simp
  qed
qed

lemma rstrip_append_keep:
  "\<exists>y\<in>set ys. \<not> isspace y \<Longrightarrow> rstrip (xs @ ys) = xs @ rstrip ys"
proof -
  assume "\<exists>y\<in>set ys. \<not> isspace y"
  then obtain y where "y \<in> set (rev ys)" "\<not> isspace y" by auto
  then have "dropWhile isspace (rev ys @ rev xs) = dropWhile isspace (rev ys) @ rev xs"
    by (rule dropWhile_append1)
  then show ?thesis by (simp add: rstrip_def)
qed

lemma rstrip_append_drop:
  "\<forall>y\<in>set ys. isspace y \<Longrightarrow> rstrip (xs @ ys) = rstrip xs"
proof -
  assume "\<forall>y\<in>set ys. isspace y"
  then have "dropWhile isspace (rev ys @ rev xs) = dropWhile isspace (rev xs)"
    by (intro dropWhile_append2) simp
  then show ?thesis by (simp add: rstrip_def)
qed

lemma rstrip_nonspace: "\<forall>x\<in>set w. \<not> isspace x \<Longrightarrow> rstrip w = w"
  by (cases w rule: rev_cases) (simp_all add: rstrip_def)

lemma dropWhile_keeps_nonspace:
  "\<exists>c\<in>set s. \<not> isspace c \<Longrightarrow> \<exists>c\<in>set (dropWhile isspace s). \<not> isspace c"
  by (induction s) auto

lemma split_ws_dropWhile: "split_ws (dropWhile isspace s) = split_ws s"
  by (induction s) simp_all

lemma split_ws_Nil: "split_ws s = [] \<longleftrightarrow> (\<forall>c\<in>set s. isspace c)"
  by (induction s) simp_all

lemma squeeze_all_space:
  "\<forall>c\<in>set s. isspace c \<Longrightarrow> squeeze s = (if s = [] then [] else [0x20])"
proof (cases s)
  case Nil
  then show ?thesis by simp
next
  case (Cons c cs)
  assume "\<forall>c\<in>set s. isspace c"
  with Cons have c: "isspace c" and d: "dropWhile isspace cs = []" by simp_all
  show ?thesis unfolding Cons using c by (simp add: d)
qed

lemma squeeze_has_nonspace:
  "\<exists>c\<in>set s. \<not> isspace c \<Longrightarrow> \<exists>c\<in>set (squeeze s). \<not> isspace c"
proof (induction s rule: squeeze.induct)
  case 1
  then show ?case by simp
next
  case (2 c cs)
  show ?case
  proof (cases "isspace c")
    case True
    with 2 have "\<exists>x\<in>set cs. \<not> isspace x" by auto
    then have "\<exists>c\<in>set (dropWhile isspace cs). \<not> isspace c"
      by (rule dropWhile_keeps_nonspace)
    with 2 True show ?thesis by simp
  next
    case False
    then show ?thesis by simp
  qed
qed

lemma join_split_rstrip:
  "join [0x20] (split_ws s) = rstrip (squeeze (dropWhile isspace s))"
proof (induction s rule: split_ws.induct)
  case 1
  show ?case by (simp add: rstrip_def)
next
  case (2 c cs)
  show ?case
  proof (cases "isspace c")
    case True
    with 2 show ?thesis by simp
  next
    case False
    define w where "w = c # takeWhile (\<lambda>x. \<not> isspace x) cs"
    define r where "r = dropWhile (\<lambda>x. \<not> isspace x) cs"
    have w: "\<forall>x\<in>set w. \<not> isspace x"
      using False by (auto simp: w_def dest: set_takeWhileD)
    have cs: "c # cs = w @ r" by (simp add: w_def r_def)
    have sq: "squeeze (c # cs) = w @ squeeze r"
      unfolding cs by (rule squeeze_nonspace_prefix[OF w])
    have IH: "join [0x20] (split_ws r) = rstrip (squeeze (dropWhile isspace r))"
      using 2(2)[OF False] by (simp add: r_def)
    have lhs: "split_ws (c # cs) = w # split_ws r"
      using False by (simp add: w_def r_def)
    show ?thesis
    proof (cases "split_ws r")
      case Nil
      then have "\<forall>c\<in>set r. isspace c" by (simp add: split_ws_Nil)
      then have "\<forall>c\<in>set (squeeze r). isspace c"
        by (simp add: squeeze_all_space isspace_space)
      then have "rstrip (w @ squeeze r) = rstrip w" by (rule rstrip_append_drop)
      also have "\<dots> = w" by (rule rstrip_nonspace[OF w])
      finally show ?thesis using False Nil lhs sq by simp
    next
      case (Cons v vs)
      then have ex: "\<exists>c\<in>set r. \<not> isspace c" using split_ws_Nil[of r] by auto
      then obtain d ds where r: "r = d # ds" by (cases r) auto
      have d: "isspace d"
        using r unfolding r_def by (simp add: dropWhile_eq_Cons_conv)
      have sqr: "squeeze r = 0x20 # squeeze (dropWhile isspace r)"
        using d r by simp
      have "\<exists>c\<in>set (dropWhile isspace r). \<not> isspace c"
        using ex by (rule dropWhile_keeps_nonspace)
      then have "\<exists>c\<in>set (squeeze (dropWhile isspace r)). \<not> isspace c"
        by (rule squeeze_has_nonspace)
      then have "rstrip ((w @ [0x20]) @ squeeze (dropWhile isspace r)) =
                 (w @ [0x20]) @ rstrip (squeeze (dropWhile isspace r))"
        by (rule rstrip_append_keep)
      then show ?thesis using False Cons lhs sq sqr IH by simp
    qed
  qed
qed

lemma join_split_collapse: "join [0x20] (split_ws s) = collapse_whitespace s"
  by (simp add: collapse_whitespace_def strip_def join_split_rstrip dropWhile_squeeze rstrip_def)

lemma markdown_chars_ok: "distinct markdown_chars \<and> 0x5C \<notin> set markdown_chars"
  by (simp add: markdown_chars_def ustr_def)

lemma clean_text_plain: "clean_text s False = collapse_whitespace (strip_backslashes s)"
  by (simp add: clean_text_def join_split_collapse replace_char_delete strip_backslashes_def)

lemma clean_text_markdown: "clean_text s True = collapse_whitespace (escape_markdown s)"
  using markdown_chars_ok
  by (simp add: clean_text_def join_split_collapse sequential_escape escape_markdown_def)

lemmas eval_str = ustr_def replace_char_def isspace_def whitespace_codepoints_def
  markdown_chars_def

section \<open>clean_text: the normalisation of text fields\<close>

text \<open>
  C8. For every text, \<open>clean_text\<close> collapses every run of whitespace (newlines
  included) to one space and trims the ends; with \<open>for_markdown\<close> true it first puts a
  backslash before each of the characters \<^verbatim>\<open>_ * [ ] ( ) ~ ` > # + - = | { } . !\<close>, and with
  \<open>for_markdown\<close> false it first removes every backslash. The two examples of the
  specification hold.
\<close>

theorem clean_text_normalises:
  "clean_text s False = collapse_whitespace (strip_backslashes s) \<and>
   clean_text s True = collapse_whitespace (escape_markdown s) \<and>
   clean_text (ustr ''a   b'' @ [0x0A] @ ustr ''c'') False = ustr ''a b c'' \<and>
   clean_text (ustr ''a.b!'') True = ustr ''a'' @ [0x5C] @ ustr ''.b'' @ [0x5C] @ ustr ''!''"
proof -
  have "clean_text (ustr ''a   b'' @ [0x0A] @ ustr ''c'') False = ustr ''a b c''"
    by (simp add: clean_text_def eval_str)
  moreover have "clean_text (ustr ''a.b!'') True = ustr ''a'' @ [0x5C] @ ustr ''.b'' @ [0x5C] @ ustr ''!''"
    by (simp add: clean_text_def eval_str)
  ultimately show ?thesis
    by (simp only: clean_text_plain clean_text_markdown simp_thms)
qed

section \<open>The change detector\<close>

lemma dict_get_map_of: "dict_get d k = map_of d k"
  by (induction d) auto

lemma find_new_lookup:
  "map_of (find_new_notifications current previous) sec =
   map_option (filter (\<lambda>item. item \<notin> set (case map_of previous sec of None \<Rightarrow> [] | Some old \<Rightarrow> old)))
              (map_of current sec)"
proof (cases "map_of current sec")
  case None
  then have "sec \<notin> set (keys current)"
    by (simp add: keys_def map_of_eq_None_iff)
  then show ?thesis
    using None by (simp add: find_new_notifications_def map_of_map_restrict restrict_map_def)
next
  case (Some items)
  then have "sec \<in> set (keys current)"
    by (force simp: keys_def dest: map_of_SomeD)
  then show ?thesis
    using Some
    by (simp add: find_new_notifications_def map_of_map_restrict restrict_map_def
        dict_get_default_def dict_get_map_of)
qed

lemma find_new_subseq:
  "subseq (dict_get_default (find_new_notifications current previous) sec [])
          (dict_get_default current sec [])"
  using find_new_lookup[of current previous sec]
  by (cases "map_of current sec") (simp_all add: dict_get_default_def dict_get_map_of)

text \<open>
  C1. For every current and previous snapshot, the delta has the keys of the current
  snapshot, in its order; under each key it holds the items of the current snapshot
  that are equal to no item of the previous snapshot under the same key, in the order of
  the current snapshot (a subsequence of it); a key that the previous snapshot lacks
  counts as an empty list there, so that all current items of that key are in the delta.
\<close>

theorem find_new_notifications_delta:
  "keys (find_new_notifications current previous) = keys current \<and>
   map_of (find_new_notifications current previous) sec =
     map_option (filter (\<lambda>item. item \<notin> set (case map_of previous sec of None \<Rightarrow> [] | Some old \<Rightarrow> old)))
                (map_of current sec) \<and>
   subseq (dict_get_default (find_new_notifications current previous) sec [])
          (dict_get_default current sec []) \<and>
   (map_of previous sec = None \<longrightarrow>
      map_of (find_new_notifications current previous) sec = map_of current sec)"
proof -
  have k: "keys (find_new_notifications current previous) = keys current"
    by (simp add: find_new_notifications_def keys_def o_def)
  have a: "map_of previous sec = None \<longrightarrow>
      map_of (find_new_notifications current previous) sec = map_of current sec"
    by (cases "map_of current sec") (simp_all add: find_new_lookup)
  show ?thesis
    using k a find_new_lookup[of current previous sec]
      find_new_subseq[of current previous sec] by blast
qed

theorem find_new_notifications_delta_witness:
  "map_of [(1::nat, [20::nat])] 2 = None \<and>
   find_new_notifications [(1::nat, [10, 20, 30::nat]), (2, [40])] [(1, [20])] =
     [(1, [10, 30]), (2, [40])] \<and>
   map_of (find_new_notifications [(1::nat, [10, 20, 30::nat]), (2, [40])] [(1, [20])]) 2 =
     map_of [(1::nat, [10, 20, 30::nat]), (2, [40])] 2"
  using find_new_notifications_delta[of "[(1::nat, [10, 20, 30::nat]), (2, [40])]" "[(1, [20])]" 2]
  by (simp add: find_new_notifications_def keys_def dict_get_default_def)

text \<open>
  C9. The delta of a snapshot against itself maps every key of the snapshot to the
  empty list; so no section of it has a new item and the cycle sends nothing.
\<close>

theorem find_new_notifications_self:
  "find_new_notifications A A = map (\<lambda>sec. (sec, [])) (keys A) \<and>
   \<not> any_values (find_new_notifications A A)"
proof -
  have "find_new_notifications A A = map (\<lambda>sec. (sec, [])) (keys A)"
    by (simp add: find_new_notifications_def)
  then show ?thesis
    by (simp add: any_values_def values_of_def o_def list_ex_iff)
qed

theorem find_new_notifications_self_witness:
  "find_new_notifications [(1::nat, [10, 20::nat]), (2, [])] [(1, [10, 20]), (2, [])] =
     [(1, []), (2, [])]"
  using find_new_notifications_self[of "[(1::nat, [10, 20::nat]), (2, [])]"]
  by (simp add: keys_def)

section \<open>The WhatsApp sender\<close>

lemma posts_of_append: "posts_of (xs @ ys) = posts_of xs @ posts_of ys"
  by (induction xs rule: posts_of.induct) simp_all

lemma send_one_returns:
  "response_handled a \<Longrightarrow>
   send_one a body =
     ([WhatsAppPost body,
       if post a = Returns 200 then Log INFO ''WhatsApp message sent successfully''
       else Log ERROR ''Failed to send WhatsApp message''], Returns ())"
  by (cases "post a"; cases "read_text a")
    (auto simp: send_one_def response_handled_def split: if_splits)

lemma send_one_raises: "post a = Raises e \<Longrightarrow> send_one a body = ([WhatsAppPost body], Raises e)"
  by (simp add: send_one_def)

lemma send_one_handled: "snd (send_one a body) = Returns () \<longleftrightarrow> response_handled a"
  by (cases "post a"; cases "read_text a")
    (auto simp: send_one_def response_handled_def split: if_splits)


lemma send_loop_raise:
  "k < length messages \<Longrightarrow>
   \<forall>j<k. response_handled (net (i + j)) \<and> pause (net (i + j)) = Returns () \<Longrightarrow>
   post (net (i + k)) = Raises e \<Longrightarrow>
   snd (send_loop net i messages sp) = Raises e \<and>
   posts_of (fst (send_loop net i messages sp)) = take (Suc k) messages"
proof (induction k arbitrary: i messages)
  case 0
  then obtain m ms where "messages = m # ms" by (cases messages) auto
  with 0 show ?case by (simp add: send_one_raises)
next
  case (Suc k)
  then obtain m ms where ms: "messages = m # ms" by (cases messages) auto
  from Suc.prems have here: "response_handled (net i)" "pause (net i) = Returns ()"
    by force+
  have a: "k < length ms" using Suc.prems ms by simp
  have b: "\<forall>j<k. response_handled (net (Suc i + j)) \<and> pause (net (Suc i + j)) = Returns ()"
  proof (intro allI impI)
    fix j assume "j < k"
    then have "Suc j < Suc k" by simp
    with Suc.prems(2) show "response_handled (net (Suc i + j)) \<and> pause (net (Suc i + j)) = Returns ()"
      by (metis add_Suc_shift)
  qed
  have c: "post (net (Suc i + k)) = Raises e" using Suc.prems(3) by simp
  from Suc.IH[OF a b c] obtain ev where
    rest: "send_loop net (Suc i) ms sp = (ev, Raises e)" and p: "posts_of ev = take (Suc k) ms"
    by (cases "send_loop net (Suc i) ms sp") auto
  show ?case
    using here rest p ms by (simp add: send_one_returns posts_of_append)
qed




text \<open>
  C10. When the post of one message raises, after the messages before it have been
  handled without an exception, \<open>send_items\<close> ends with that exception and the messages
  after it are never posted: the posts are those of the messages up to and including the
  one that raised.
\<close>

theorem send_items_transport_error_propagates:
  assumes "k < length messages"
    and "\<forall>j<k. response_handled (net j) \<and> pause (net j) = Returns ()"
    and "post (net k) = Raises e"
  shows "snd (send_items net messages sp) = Raises e \<and>
         posts_of (fst (send_items net messages sp)) = take (Suc k) messages"
  using send_loop_raise[of k messages net 0 e sp] assms
  by (cases "send_loop net 0 messages sp") (simp add: send_items_def)

theorem send_items_transport_error_propagates_witness:
  "(1::nat) < length [ustr ''one'', ustr ''two'', ustr ''three''] \<and>
   send_items (\<lambda>k. \<lparr>post = (if k = 1 then Raises Exception else Returns 200),
                      read_text = Returns [], pause = Returns ()\<rparr>)
              [ustr ''one'', ustr ''two'', ustr ''three''] default_spacing_seconds =
     ([Log INFO ''WhatsAppSender received messages to send'',
       WhatsAppPost (ustr ''one''), Log INFO ''WhatsApp message sent successfully'',
       Sleep default_spacing_seconds, WhatsAppPost (ustr ''two'')], Raises Exception) \<and>
   posts_of (fst (send_items (\<lambda>k. \<lparr>post = (if k = 1 then Raises Exception else Returns 200),
                      read_text = Returns [], pause = Returns ()\<rparr>)
              [ustr ''one'', ustr ''two'', ustr ''three''] default_spacing_seconds)) =
     take 2 [ustr ''one'', ustr ''two'', ustr ''three'']"
proof -
  let ?net = "\<lambda>k::nat. \<lparr>post = (if k = 1 then Raises Exception else Returns (200::nat)),
                          read_text = Returns [], pause = Returns ()\<rparr>"
  have a: "(1::nat) < length [ustr ''one'', ustr ''two'', ustr ''three'']" by simp
  have b: "\<forall>j<1::nat. response_handled (?net j) \<and> pause (?net j) = Returns ()"
    by (simp add: response_handled_def)
  have c: "post (?net 1) = Raises Exception" by simp
  have d: "send_items ?net [ustr ''one'', ustr ''two'', ustr ''three''] default_spacing_seconds =
     ([Log INFO ''WhatsAppSender received messages to send'',
       WhatsAppPost (ustr ''one''), Log INFO ''WhatsApp message sent successfully'',
       Sleep default_spacing_seconds, WhatsAppPost (ustr ''two'')], Raises Exception)"
    by (simp add: send_items_def send_one_def)
  show ?thesis
    using send_items_transport_error_propagates[OF a b c, of default_spacing_seconds] a d
    by simp
qed

section \<open>The message formats\<close>

lemma set_squeeze: "set (squeeze s) \<subseteq> insert 0x20 (set s)"
proof (induction s rule: squeeze.induct)
  case 1
  show ?case by simp
next
  case (2 c cs)
  show ?case
  proof (cases "isspace c")
    case True
    have "set (dropWhile isspace cs) \<subseteq> set cs"
      by (auto dest: set_dropWhileD)
    with 2(1)[OF True] True show ?thesis by auto
  next
    case False
    with 2(2) show ?thesis by auto
  qed
qed

lemma set_strip: "set (strip s) \<subseteq> set s"
  by (auto simp: strip_def dest!: set_dropWhileD)

lemma clean_text_no_backslash: "0x5C \<notin> set (clean_text t False)"
proof -
  have "set (clean_text t False) \<subseteq> insert 0x20 (set (strip_backslashes t))"
    unfolding clean_text_plain collapse_whitespace_def
    using set_strip[of "squeeze (strip_backslashes t)"] set_squeeze[of "strip_backslashes t"]
    by blast
  then show ?thesis by (auto simp: strip_backslashes_def)
qed

lemma format_telegram_message_rendering:
  "format_telegram_message sec it = telegram_rendering (\<lambda>t. clean_text t False) sec it"
  by (simp add: format_telegram_message_def telegram_rendering_def Let_def
      split: option.splits prod.splits)

text \<open>
  C4, as stated, fails. The Telegram format calls \<open>clean_text\<close> with \<open>for_markdown\<close>
  false: a title with a hyphen comes out without a backslash, which is not the rendering
  with the markdown-escaping normalisation.
\<close>

theorem telegram_message_not_markdown_escaped:
  "format_telegram_message (ustr ''Exam Notifications'')
     \<lparr>title = ustr ''Mid-term results'', link = ustr ''/x'', date = None, author = None\<rparr> =
     [0xF0, 0x178, 0x201C, 0xA3] @ ustr '' New Exam Notifications!'' @ [0x0A, 0x0A]
     @ ustr ''Mid-term results'' @ [0x0A] @ [0xF0, 0x178, 0x201D, 0x2014] @ ustr '' /x'' \<and>
   format_telegram_message (ustr ''Exam Notifications'')
     \<lparr>title = ustr ''Mid-term results'', link = ustr ''/x'', date = None, author = None\<rparr> \<noteq>
   telegram_rendering (\<lambda>t. clean_text t True) (ustr ''Exam Notifications'')
     \<lparr>title = ustr ''Mid-term results'', link = ustr ''/x'', date = None, author = None\<rparr>"
  by (simp add: format_telegram_message_def telegram_rendering_def clean_text_def eval_str)

text \<open>
  C4, amended. For every section and item, the Telegram format applies \<open>clean_text\<close>
  with \<open>for_markdown\<close> false (whitespace collapsed, backslashes removed, nothing escaped:
  the result holds no backslash) to the section label, the title and, when both are
  present, the date and the author; the link goes into the Telegram message and into the
  WhatsApp message as it is.
\<close>

theorem telegram_message_plain_normalisation:
  "format_telegram_message sec it = telegram_rendering (\<lambda>t. clean_text t False) sec it \<and>
   0x5C \<notin> set (clean_text t False) \<and>
   (\<exists>before after. \<forall>l. format_telegram_message sec (it\<lparr>link := l\<rparr>) = before @ l @ after) \<and>
   (\<exists>before after. \<forall>l. format_whatsapp_message sec (it\<lparr>link := l\<rparr>) = before @ l @ after)"
proof -
  have a: "\<exists>before after. \<forall>l. format_telegram_message sec (it\<lparr>link := l\<rparr>) = before @ l @ after"
  proof (cases "date it")
    case None
    show ?thesis
      by (rule exI[of _ "[0xF0, 0x178, 0x201C, 0xA3] @ ustr '' New '' @ clean_text sec False
            @ ustr ''!'' @ [0x0A, 0x0A] @ clean_text (title it) False @ [0x0A]
            @ [0xF0, 0x178, 0x201D, 0x2014] @ ustr '' ''"], rule exI[of _ "[]"])
        (simp add: format_telegram_message_def None)
  next
    case (Some d)
    show ?thesis
    proof (cases "author it")
      case None
      show ?thesis
        by (rule exI[of _ "[0xF0, 0x178, 0x201C, 0xA3] @ ustr '' New '' @ clean_text sec False
              @ ustr ''!'' @ [0x0A, 0x0A] @ clean_text (title it) False @ [0x0A]
              @ [0xF0, 0x178, 0x201D, 0x2014] @ ustr '' ''"], rule exI[of _ "[]"])
          (simp add: format_telegram_message_def None Some)
    next
      case (Some a)
      show ?thesis
        by (rule exI[of _ "[0xF0, 0x178, 0x201C, 0xA3] @ ustr '' New '' @ clean_text sec False
              @ ustr ''!'' @ [0x0A, 0x0A] @ clean_text (title it) False @ [0x0A]
              @ [0xF0, 0x178, 0x201D, 0x2014] @ ustr '' ''"],
            rule exI[of _ "[0x0A] @ [0xF0, 0x178, 0x2014, 0x201C] @ ustr '' '' @ clean_text d False
              @ [0x0A] @ [0xF0, 0x178, 0x2018, 0xA4] @ ustr '' '' @ clean_text a False"])
          (simp add: format_telegram_message_def Some \<open>date it = Some d\<close>)
    qed
  qed
  have b: "\<exists>before after. \<forall>l. format_whatsapp_message sec (it\<lparr>link := l\<rparr>) = before @ l @ after"
  proof (cases "date it")
    case None
    show ?thesis
      by (rule exI[of _ "[0xF0, 0x178, 0x201C, 0xA2] @ ustr '' New '' @ sec @ ustr '' Alert!''
            @ [0x0A] @ title it @ [0x0A] @ [0xF0, 0x178, 0x201D, 0x2014] @ ustr '' ''"],
          rule exI[of _ "[]"])
        (simp add: format_whatsapp_message_def None)
  next
    case (Some d)
    show ?thesis
    proof (cases "author it")
      case None
      show ?thesis
        by (rule exI[of _ "[0xF0, 0x178, 0x201C, 0xA2] @ ustr '' New '' @ sec @ ustr '' Alert!''
              @ [0x0A] @ title it @ [0x0A] @ [0xF0, 0x178, 0x201D, 0x2014] @ ustr '' ''"],
            rule exI[of _ "[]"])
          (simp add: format_whatsapp_message_def None Some)
    next
      case (Some a)
      show ?thesis
        by (rule exI[of _ "[0xF0, 0x178, 0x201C, 0xA2] @ ustr '' New '' @ sec @ ustr '' Alert!''
              @ [0x0A] @ title it @ [0x0A] @ [0xF0, 0x178, 0x201D, 0x2014] @ ustr '' ''"],
            rule exI[of _ "[0x0A] @ [0xF0, 0x178, 0x2014, 0x201C] @ ustr '' '' @ d
              @ [0x0A] @ [0xF0, 0x178, 0x2018, 0xA4] @ ustr '' '' @ a"])
          (simp add: format_whatsapp_message_def Some \<open>date it = Some d\<close>)
    qed
  qed
  show ?thesis
    using a b clean_text_no_backslash[of t] format_telegram_message_rendering[of sec it]
    by blast
qed

theorem telegram_message_plain_normalisation_witness:
  "format_telegram_message (ustr ''Latest  Announcements'')
     \<lparr>title = ustr ''Exam_Postponed'', link = ustr ''/x_y'', date = Some (ustr ''2024-01-01''),
      author = Some (ustr ''Admin'')\<rparr> =
     [0xF0, 0x178, 0x201C, 0xA3] @ ustr '' New Latest Announcements!'' @ [0x0A, 0x0A]
     @ ustr ''Exam_Postponed'' @ [0x0A] @ [0xF0, 0x178, 0x201D, 0x2014] @ ustr '' /x_y''
     @ [0x0A] @ [0xF0, 0x178, 0x2014, 0x201C] @ ustr '' 2024-01-01''
     @ [0x0A] @ [0xF0, 0x178, 0x2018, 0xA4] @ ustr '' Admin''"
  using telegram_message_plain_normalisation[of "ustr ''Latest  Announcements''"
      "\<lparr>title = ustr ''Exam_Postponed'', link = ustr ''/x_y'', date = Some (ustr ''2024-01-01''),
        author = Some (ustr ''Admin'')\<rparr>" "[]"]
  by (simp add: telegram_rendering_def clean_text_def eval_str)

section \<open>The keys of snapshots and deltas\<close>

lemma keys_append_item: "keys (append_item n k x) = keys n"
  by (induction n) (auto simp: append_item_def keys_def)

lemma keys_process_item: "keys (process_item k n it) = keys n"
  by (simp add: process_item_def keys_append_item split: option.splits)

lemma keys_process_items: "keys (foldl (process_item k) n items) = keys n"
  by (induction items arbitrary: n) (simp_all add: keys_process_item)

lemma keys_process_section: "keys (process_section n s) = keys n"
  by (simp add: process_section_def keys_process_items Let_def split: option.splits)

lemma keys_process_sections: "keys (foldl process_section n ss) = keys n"
  by (induction ss arbitrary: n) (simp_all add: keys_process_section)

lemma keys_parse_content: "keys (parse_content soup) = recognized_categories"
  by (simp add: parse_content_def keys_process_sections)
    (simp add: keys_def initial_notifications_def recognized_categories_def)

lemma recognized_categories_eight:
  "length recognized_categories = 8 \<and> distinct recognized_categories"
  by (simp add: recognized_categories_def ustr_def)

lemma parse_example_page: "parse_content example_page = example_snapshot"
  by (simp add: parse_content_def process_section_def process_item_def
      latest_announcement_entry_def find_all_def find_first_def get_text_def strip_def
      clean_text_def append_item_def initial_notifications_def sections_map_def
      example_page_def example_snapshot_def example_item_def eval_str)

section \<open>One cycle and the loop\<close>

lemma fetch_failed_empty:
  "fetch_failed resp \<Longrightarrow>
   snd (get_latest_notifications resp) = Returns [] \<and>
   filter is_send (fst (get_latest_notifications resp)) = [] \<and>
   filter is_save (fst (get_latest_notifications resp)) = []"
proof (cases resp)
  case (Returns r)
  assume "fetch_failed resp"
  with Returns show ?thesis
    by (cases r) (simp add: get_latest_notifications_def)
next
  case (Raises e)
  assume "fetch_failed resp"
  with Raises show ?thesis
    by (cases e) (simp_all add: get_latest_notifications_def)
qed

lemma find_new_empty: "find_new_notifications [] previous = []"
  by (simp add: find_new_notifications_def keys_def)

lemma any_values_empty: "\<not> any_values []"
  by (simp add: any_values_def values_of_def)

lemma check_for_updates_fetch_failed:
  "fetch_failed (fetch w) \<Longrightarrow>
   check_for_updates b w persisted =
     (fst (get_latest_notifications (fetch w)) @ [LoadState], persisted,
      case load_raises w of None \<Rightarrow> Returns () | Some e \<Rightarrow> Raises e)"
  using fetch_failed_empty[of "fetch w"]
  by (cases "get_latest_notifications (fetch w)")
    (simp add: check_for_updates_def load_state_def find_new_empty any_values_empty
      split: option.splits)

lemma ticker_loop_continues:
  "check_for_updates b w persisted = (ev, persisted', Returns ()) \<Longrightarrow> tick w = Returns () \<Longrightarrow>
   ticker_loop b (w # ws) persisted =
     (ev @ [Sleep (check_interval b)] @ fst (ticker_loop b ws persisted'),
      snd (ticker_loop b ws persisted'))"
  by (cases "ticker_loop b ws persisted'") simp

lemma ticker_loop_dies:
  "check_for_updates b w persisted = (ev, persisted', Raises Exception) \<Longrightarrow>
   ticker_loop b (w # ws) persisted = (ev, persisted', Died Exception)"
  by simp

text \<open>
  C6, as stated, fails. \<open>load_state\<close> is awaited after the failed fetch, and nothing
  catches what it raises: with a fetch of status 503 and a \<open>load_state\<close> that raises,
  the loop ends in that cycle and the next cycle never starts.
\<close>

theorem fetch_failure_then_load_error_ends_loop:
  "fetch_failed (fetch (quiet_world\<lparr>fetch := Returns (Response 503 example_page),
                                     load_raises := Some Exception\<rparr>)) \<and>
   ticker_loop example_bot
     [quiet_world\<lparr>fetch := Returns (Response 503 example_page), load_raises := Some Exception\<rparr>,
      quiet_world] [] =
     ([HttpGet, Log ERROR ''HTTP Error'', LoadState], [], Died Exception)"
proof -
  let ?w = "quiet_world\<lparr>fetch := Returns (Response 503 example_page), load_raises := Some Exception\<rparr>"
  have f: "fetch_failed (fetch ?w)" by simp
  have "check_for_updates example_bot ?w [] =
          ([HttpGet, Log ERROR ''HTTP Error'', LoadState], [], Raises Exception)"
    using check_for_updates_fetch_failed[OF f, of example_bot "[]"]
    by (simp add: get_latest_notifications_def quiet_world_def)
  then show ?thesis using f by simp
qed

text \<open>
  C6, amended. In a cycle whose fetch returns a status other than 200 or raises a
  transport error, no channel sender is called, \<open>save_state\<close> is not called and the
  persisted state is unchanged. When \<open>load_state\<close> returns and the sleep is not
  cancelled, the loop goes on to its next cycle with that state; when \<open>load_state\<close>
  raises an exception other than a cancellation, the loop ends in that cycle.
\<close>

theorem fetch_failure_cycle:
  assumes "fetch_failed (fetch w)"
  shows "filter is_send (fst (check_for_updates b w persisted)) = [] \<and>
         filter is_save (fst (check_for_updates b w persisted)) = [] \<and>
         fst (snd (check_for_updates b w persisted)) = persisted \<and>
         (load_raises w = None \<longrightarrow> tick w = Returns () \<longrightarrow>
            ticker_loop b (w # ws) persisted =
              (fst (check_for_updates b w persisted) @ [Sleep (check_interval b)]
                 @ fst (ticker_loop b ws persisted),
               snd (ticker_loop b ws persisted))) \<and>
         (load_raises w = Some Exception \<longrightarrow>
            ticker_loop b (w # ws) persisted =
              (fst (check_for_updates b w persisted), persisted, Died Exception))"
proof -
  note c = check_for_updates_fetch_failed[OF assms, of b persisted]
  have "load_raises w = None \<Longrightarrow> tick w = Returns () \<Longrightarrow>
        ticker_loop b (w # ws) persisted =
              (fst (check_for_updates b w persisted) @ [Sleep (check_interval b)]
                 @ fst (ticker_loop b ws persisted),
               snd (ticker_loop b ws persisted))"
    using ticker_loop_continues[of b w persisted _ persisted ws] c by simp
  moreover have "load_raises w = Some Exception \<Longrightarrow>
        ticker_loop b (w # ws) persisted =
              (fst (check_for_updates b w persisted), persisted, Died Exception)"
    using ticker_loop_dies[of b w persisted _ persisted ws] c by simp
  ultimately show ?thesis
    using c fetch_failed_empty[OF assms] by simp
qed

theorem fetch_failure_cycle_witness:
  "fetch_failed (fetch (quiet_world\<lparr>fetch := Returns (Response 503 example_page)\<rparr>)) \<and>
   load_raises (quiet_world\<lparr>fetch := Returns (Response 503 example_page)\<rparr>) = None \<and>
   tick (quiet_world\<lparr>fetch := Returns (Response 503 example_page)\<rparr>) = Returns () \<and>
   ticker_loop example_bot
      [quiet_world\<lparr>fetch := Returns (Response 503 example_page)\<rparr>, quiet_world] [] =
     ([HttpGet, Log ERROR ''HTTP Error'', LoadState, Sleep 300] @ fst (ticker_loop example_bot [quiet_world] []),
      snd (ticker_loop example_bot [quiet_world] [])) \<and>
   fetch_failed (fetch (quiet_world\<lparr>fetch := Raises Exception, load_raises := Some Exception\<rparr>)) \<and>
   load_raises (quiet_world\<lparr>fetch := Raises Exception, load_raises := Some Exception\<rparr>) =
     Some Exception \<and>
   ticker_loop example_bot
      [quiet_world\<lparr>fetch := Raises Exception, load_raises := Some Exception\<rparr>, quiet_world] [] =
     ([HttpGet, Log ERROR ''Fetch error'', LoadState], [], Died Exception)"
proof -
  let ?w = "quiet_world\<lparr>fetch := Returns (Response 503 example_page)\<rparr>"
  let ?v = "quiet_world\<lparr>fetch := Raises Exception, load_raises := Some Exception\<rparr>"
  have f: "fetch_failed (fetch ?w)" by simp
  have g: "fetch_failed (fetch ?v)" by simp
  have c: "check_for_updates example_bot ?w [] = ([HttpGet, Log ERROR ''HTTP Error'', LoadState], [], Returns ())"
    using check_for_updates_fetch_failed[OF f, of example_bot "[]"]
    by (simp add: get_latest_notifications_def quiet_world_def)
  have d: "check_for_updates example_bot ?v [] = ([HttpGet, Log ERROR ''Fetch error'', LoadState], [], Raises Exception)"
    using check_for_updates_fetch_failed[OF g, of example_bot "[]"]
    by (simp add: get_latest_notifications_def quiet_world_def)
  show ?thesis
    using fetch_failure_cycle[OF f, of example_bot "[]" "[quiet_world]"]
      fetch_failure_cycle[OF g, of example_bot "[]" "[quiet_world]"] c d
    by (simp add: quiet_world_def example_bot_def)
qed

text \<open>
  C5, as stated, fails. After a fetch failure the current snapshot is the empty dict, and
  so is the delta computed from it: neither has the eight category keys.
\<close>

theorem fetch_failure_snapshot_has_no_keys:
  "get_latest_notifications (Raises Exception) = ([HttpGet, Log ERROR ''Fetch error''], Returns []) \<and>
   set (keys ([] :: snapshot)) \<noteq> set recognized_categories \<and>
   set (keys (find_new_notifications ([] :: snapshot) example_snapshot)) \<noteq> set recognized_categories"
  by (simp add: get_latest_notifications_def find_new_empty keys_def recognized_categories_def)

text \<open>
  C5, amended. Every snapshot that \<open>parse_content\<close> returns, so every current snapshot
  of a cycle whose fetch has status 200, has exactly the eight recognized categories as
  its keys, in the order of the dict literal; every delta has the keys of the current
  snapshot it was computed from, so the eight categories after a successful fetch. After
  a failed fetch the current snapshot and the delta are the empty dict.
\<close>

theorem snapshot_and_delta_keys:
  "keys (parse_content soup) = recognized_categories \<and>
   length recognized_categories = 8 \<and> distinct recognized_categories \<and>
   keys (find_new_notifications (parse_content soup) previous) = recognized_categories \<and>
   keys (find_new_notifications current previous) = keys current \<and>
   get_latest_notifications (Returns (Response 200 soup)) = ([HttpGet], Returns (parse_content soup)) \<and>
   (fetch_failed resp \<longrightarrow>
      snd (get_latest_notifications resp) = Returns [] \<and>
      find_new_notifications ([] :: snapshot) previous = [])"
proof -
  have k: "keys (find_new_notifications c p) = keys c" for c p :: snapshot
    by (simp add: find_new_notifications_def keys_def o_def)
  show ?thesis
    using fetch_failed_empty[of resp] recognized_categories_eight
    by (simp add: k keys_parse_content get_latest_notifications_def find_new_empty)
qed

theorem snapshot_and_delta_keys_witness:
  "fetch_failed (Returns (Response 404 example_page)) \<and>
   keys (parse_content example_page) = recognized_categories \<and>
   keys (find_new_notifications (parse_content example_page) []) = recognized_categories \<and>
   find_new_notifications (parse_content example_page) [] = example_snapshot \<and>
   snd (get_latest_notifications (Returns (Response 404 example_page))) = Returns []"
proof -
  have "find_new_notifications example_snapshot [] = example_snapshot"
    by (simp add: find_new_notifications_def keys_def dict_get_default_def example_snapshot_def
        ustr_def)
  then show ?thesis
    using snapshot_and_delta_keys[of example_page "[]" "[]" "Returns (Response 404 example_page)"]
    by (simp add: parse_example_page)
qed

lemma any_values_messages:
  "any_values new_notifications \<Longrightarrow>
   telegram_messages new_notifications \<noteq> [] \<and> whatsapp_messages new_notifications \<noteq> []"
  by (induction new_notifications)
    (auto simp: any_values_def values_of_def telegram_messages_def whatsapp_messages_def)

lemma send_notifications_telegram_raises:
  "any_values new_notifications \<Longrightarrow> telegram_sender b \<Longrightarrow> telegram w = Raises e \<Longrightarrow>
   send_notifications b w new_notifications =
     ([TelegramSendItems (telegram_messages new_notifications)], Raises e)"
  using any_values_messages[of new_notifications]
  by (simp add: send_notifications_def Let_def)

lemma send_notifications_telegram_returns:
  "any_values new_notifications \<Longrightarrow> telegram_sender b \<longrightarrow> telegram w = Returns () \<Longrightarrow>
   whatsapp_sender b \<Longrightarrow>
   send_notifications b w new_notifications =
     ((if telegram_sender b then [TelegramSendItems (telegram_messages new_notifications)] else [])
        @ Log INFO ''Attempting to send WhatsApp messages...''
        # fst (send_items (whatsapp w) (whatsapp_messages new_notifications) default_spacing_seconds),
      snd (send_items (whatsapp w) (whatsapp_messages new_notifications) default_spacing_seconds))"
  using any_values_messages[of new_notifications]
  by (cases "send_items (whatsapp w) (whatsapp_messages new_notifications) default_spacing_seconds")
    (simp add: send_notifications_def Let_def)

lemma check_for_updates_dispatch_raises:
  "get_latest_notifications (fetch w) = (ev1, Returns current) \<Longrightarrow> load_raises w = None \<Longrightarrow>
   any_values (find_new_notifications current persisted) \<Longrightarrow>
   snd (send_notifications b w (find_new_notifications current persisted)) = Raises e \<Longrightarrow>
   check_for_updates b w persisted =
     (ev1 @ [LoadState] @ fst (send_notifications b w (find_new_notifications current persisted)),
      persisted, Raises e)"
  by (cases "send_notifications b w (find_new_notifications current persisted)")
    (simp add: check_for_updates_def load_state_def Let_def)

lemma check_for_updates_load_raises:
  "fetch w \<noteq> Raises CancelledError \<Longrightarrow> load_raises w = Some e \<Longrightarrow>
   check_for_updates b w persisted =
     (fst (get_latest_notifications (fetch w)) @ [LoadState], persisted, Raises e)"
proof (cases "fetch w")
  case (Returns r)
  assume "load_raises w = Some e"
  with Returns show ?thesis
    by (cases r) (simp add: check_for_updates_def load_state_def get_latest_notifications_def)
next
  case (Raises x)
  assume "fetch w \<noteq> Raises CancelledError" "load_raises w = Some e"
  with Raises show ?thesis
    by (cases x) (simp_all add: check_for_updates_def load_state_def get_latest_notifications_def)
qed

lemma example_delta: "find_new_notifications example_snapshot [] = example_snapshot"
  by (simp add: find_new_notifications_def keys_def dict_get_default_def example_snapshot_def
      ustr_def)

lemma example_any: "any_values example_snapshot"
  by (simp add: any_values_def values_of_def example_snapshot_def)

lemma example_telegram_messages:
  "telegram_messages example_snapshot =
     [format_telegram_message (ustr ''Latest Announcements'') example_item]"
  by (simp add: telegram_messages_def example_snapshot_def)

lemma example_whatsapp_messages:
  "whatsapp_messages example_snapshot =
     [format_whatsapp_message (ustr ''Latest Announcements'') example_item]"
  by (simp add: whatsapp_messages_def example_snapshot_def)

lemma example_fetch:
  "get_latest_notifications (Returns (Response 200 example_page)) = ([HttpGet], Returns example_snapshot)"
  by (simp add: get_latest_notifications_def parse_example_page)

text \<open>
  C2, as stated, fails. With both senders registered and a non-empty delta, an exception
  of the Telegram sender leaves \<open>send_notifications\<close> and \<open>check_for_updates\<close>: the
  WhatsApp sender is not called and the state is not saved.
\<close>

theorem telegram_failure_stops_dispatch:
  "send_notifications example_bot (quiet_world\<lparr>telegram := Raises Exception\<rparr>) example_snapshot =
     ([TelegramSendItems [format_telegram_message (ustr ''Latest Announcements'') example_item]],
      Raises Exception) \<and>
   check_for_updates example_bot (quiet_world\<lparr>telegram := Raises Exception\<rparr>) [] =
     ([HttpGet, LoadState,
       TelegramSendItems [format_telegram_message (ustr ''Latest Announcements'') example_item]],
      [], Raises Exception)"
proof -
  let ?w = "quiet_world\<lparr>telegram := Raises Exception\<rparr>"
  have s: "send_notifications example_bot ?w example_snapshot =
     ([TelegramSendItems [format_telegram_message (ustr ''Latest Announcements'') example_item]],
      Raises Exception)"
    using send_notifications_telegram_raises[OF example_any, of example_bot ?w Exception]
    by (simp add: example_bot_def example_telegram_messages)
  have "check_for_updates example_bot ?w [] =
     ([HttpGet] @ [LoadState] @ fst (send_notifications example_bot ?w (find_new_notifications example_snapshot [])),
      [], Raises Exception)"
  proof (rule check_for_updates_dispatch_raises)
    show "get_latest_notifications (fetch ?w) = ([HttpGet], Returns example_snapshot)"
      by (simp add: quiet_world_def example_fetch)
    show "load_raises ?w = None" by (simp add: quiet_world_def)
    show "any_values (find_new_notifications example_snapshot [])"
      by (simp add: example_delta example_any)
    show "snd (send_notifications example_bot ?w (find_new_notifications example_snapshot [])) =
          Raises Exception"
      by (simp add: example_delta s)
  qed
  then show ?thesis using s by (simp add: example_delta)
qed

text \<open>
  C2, amended. For every non-empty delta: when the registered Telegram sender raises,
  \<open>send_notifications\<close> ends with that exception right after that call, without calling
  the WhatsApp sender; when the Telegram sender returns or is not registered, the
  registered WhatsApp sender is called with all WhatsApp messages and its outcome is the
  outcome of \<open>send_notifications\<close>; and when \<open>send_notifications\<close> raises in a cycle,
  \<open>check_for_updates\<close> raises the same exception, \<open>save_state\<close> is not called and the
  persisted state is unchanged.
\<close>

theorem channel_failure_propagates:
  assumes "any_values new_notifications"
  shows "(telegram_sender b \<and> telegram w = Raises e \<longrightarrow>
            send_notifications b w new_notifications =
              ([TelegramSendItems (telegram_messages new_notifications)], Raises e)) \<and>
         ((telegram_sender b \<longrightarrow> telegram w = Returns ()) \<and> whatsapp_sender b \<longrightarrow>
            send_notifications b w new_notifications =
              ((if telegram_sender b then [TelegramSendItems (telegram_messages new_notifications)] else [])
                 @ Log INFO ''Attempting to send WhatsApp messages...''
                 # fst (send_items (whatsapp w) (whatsapp_messages new_notifications) default_spacing_seconds),
               snd (send_items (whatsapp w) (whatsapp_messages new_notifications) default_spacing_seconds))) \<and>
         (get_latest_notifications (fetch w) = (ev1, Returns current) \<and> load_raises w = None \<and>
          find_new_notifications current persisted = new_notifications \<and>
          snd (send_notifications b w new_notifications) = Raises e \<longrightarrow>
            check_for_updates b w persisted =
              (ev1 @ [LoadState] @ fst (send_notifications b w new_notifications), persisted, Raises e))"
  using assms send_notifications_telegram_raises[of new_notifications b w e]
    send_notifications_telegram_returns[of new_notifications b w]
    check_for_updates_dispatch_raises[of w ev1 current persisted b e]
  by blast

theorem channel_failure_propagates_witness:
  "any_values example_snapshot \<and>
   telegram_sender example_bot \<and> telegram (quiet_world\<lparr>telegram := Raises Exception\<rparr>) = Raises Exception \<and>
   send_notifications example_bot (quiet_world\<lparr>telegram := Raises Exception\<rparr>) example_snapshot =
     ([TelegramSendItems (telegram_messages example_snapshot)], Raises Exception) \<and>
   get_latest_notifications (fetch (quiet_world\<lparr>telegram := Raises Exception\<rparr>)) =
     ([HttpGet], Returns example_snapshot) \<and>
   load_raises (quiet_world\<lparr>telegram := Raises Exception\<rparr>) = None \<and>
   find_new_notifications example_snapshot [] = example_snapshot \<and>
   check_for_updates example_bot (quiet_world\<lparr>telegram := Raises Exception\<rparr>) [] =
     ([HttpGet] @ [LoadState] @ [TelegramSendItems (telegram_messages example_snapshot)], [],
      Raises Exception) \<and>
   telegram (quiet_world\<lparr>whatsapp := (\<lambda>k. \<lparr>post = Raises Exception, read_text = Returns [], pause = Returns ()\<rparr>)\<rparr>) =
     Returns () \<and>
   whatsapp_sender example_bot \<and>
   send_notifications example_bot
       (quiet_world\<lparr>whatsapp := (\<lambda>k. \<lparr>post = Raises Exception, read_text = Returns [], pause = Returns ()\<rparr>)\<rparr>)
       example_snapshot =
     ([TelegramSendItems (telegram_messages example_snapshot),
       Log INFO ''Attempting to send WhatsApp messages...'',
       Log INFO ''WhatsAppSender received messages to send'',
       WhatsAppPost (format_whatsapp_message (ustr ''Latest Announcements'') example_item)],
      Raises Exception)"
proof -
  let ?w = "quiet_world\<lparr>telegram := Raises Exception\<rparr>"
  let ?v = "quiet_world\<lparr>whatsapp := (\<lambda>k. \<lparr>post = Raises Exception, read_text = Returns [], pause = Returns ()\<rparr>)\<rparr>"
  have a: "telegram_sender example_bot" "telegram ?w = Raises Exception" "load_raises ?w = None"
    "get_latest_notifications (fetch ?w) = ([HttpGet], Returns example_snapshot)"
    "whatsapp_sender example_bot" "telegram ?v = Returns ()"
    by (simp_all add: example_bot_def quiet_world_def example_fetch)
  have v: "send_items (whatsapp ?v) (whatsapp_messages example_snapshot) default_spacing_seconds =
             ([Log INFO ''WhatsAppSender received messages to send'',
               WhatsAppPost (format_whatsapp_message (ustr ''Latest Announcements'') example_item)],
              Raises Exception)"
    by (simp add: quiet_world_def example_whatsapp_messages send_items_def send_one_def)
  show ?thesis
    using channel_failure_propagates[OF example_any, of example_bot ?w Exception "[HttpGet]"
        example_snapshot "[]"]
      channel_failure_propagates[OF example_any, of example_bot ?v]
      a example_any example_delta v
    by simp
qed

text \<open>
  C3, as stated, fails. A transport error of the WhatsApp post, or an exception of
  \<open>load_state\<close>, ends the loop in its first cycle: the second cycle never starts.
\<close>

theorem dispatch_or_storage_error_ends_loop:
  "ticker_loop example_bot
     [quiet_world\<lparr>whatsapp := (\<lambda>k. \<lparr>post = Raises Exception, read_text = Returns [], pause = Returns ()\<rparr>)\<rparr>, quiet_world] [] =
     ([HttpGet, LoadState,
       TelegramSendItems [format_telegram_message (ustr ''Latest Announcements'') example_item],
       Log INFO ''Attempting to send WhatsApp messages...'',
       Log INFO ''WhatsAppSender received messages to send'',
       WhatsAppPost (format_whatsapp_message (ustr ''Latest Announcements'') example_item)],
      [], Died Exception) \<and>
   ticker_loop example_bot [quiet_world\<lparr>load_raises := Some Exception\<rparr>, quiet_world] [] =
     ([HttpGet, LoadState], [], Died Exception)"
proof -
  let ?w = "quiet_world\<lparr>whatsapp := (\<lambda>k. \<lparr>post = Raises Exception, read_text = Returns [], pause = Returns ()\<rparr>)\<rparr>"
  let ?v = "quiet_world\<lparr>load_raises := Some Exception\<rparr>"
  have s: "send_notifications example_bot ?w example_snapshot =
     ([TelegramSendItems [format_telegram_message (ustr ''Latest Announcements'') example_item],
       Log INFO ''Attempting to send WhatsApp messages...'',
       Log INFO ''WhatsAppSender received messages to send'',
       WhatsAppPost (format_whatsapp_message (ustr ''Latest Announcements'') example_item)],
      Raises Exception)"
    by (simp add: send_notifications_def example_telegram_messages example_whatsapp_messages
        example_bot_def quiet_world_def send_items_def send_one_def)
  have "check_for_updates example_bot ?w [] =
     ([HttpGet] @ [LoadState] @ fst (send_notifications example_bot ?w (find_new_notifications example_snapshot [])),
      [], Raises Exception)"
  proof (rule check_for_updates_dispatch_raises)
    show "get_latest_notifications (fetch ?w) = ([HttpGet], Returns example_snapshot)"
      by (simp add: quiet_world_def example_fetch)
    show "load_raises ?w = None" by (simp add: quiet_world_def)
    show "any_values (find_new_notifications example_snapshot [])"
      by (simp add: example_delta example_any)
    show "snd (send_notifications example_bot ?w (find_new_notifications example_snapshot [])) =
          Raises Exception"
      by (simp add: example_delta s)
  qed
  then have 1: "ticker_loop example_bot [?w, quiet_world] [] =
     ([HttpGet, LoadState,
       TelegramSendItems [format_telegram_message (ustr ''Latest Announcements'') example_item],
       Log INFO ''Attempting to send WhatsApp messages...'',
       Log INFO ''WhatsAppSender received messages to send'',
       WhatsAppPost (format_whatsapp_message (ustr ''Latest Announcements'') example_item)],
      [], Died Exception)"
    using s by (simp add: example_delta)
  have "check_for_updates example_bot ?v [] =
     (fst (get_latest_notifications (fetch ?v)) @ [LoadState], [], Raises Exception)"
    by (rule check_for_updates_load_raises) (simp_all add: quiet_world_def)
  then have 2: "ticker_loop example_bot [?v, quiet_world] [] = ([HttpGet, LoadState], [], Died Exception)"
    by (simp add: quiet_world_def example_fetch)
  show ?thesis using 1 2 by simp
qed

text \<open>
  C3, amended. A failed fetch (a status other than 200, or an exception other than a
  cancellation) is absorbed: \<open>get_latest_notifications\<close> returns the empty snapshot. A
  cycle that returns is followed, after the sleep, by the next cycle. An exception
  raised by \<open>load_state\<close> or by the dispatch leaves \<open>check_for_updates\<close>, and any such
  exception ends the loop: no later cycle runs.
\<close>

theorem loop_survival:
  "(fetch_failed resp \<longrightarrow> snd (get_latest_notifications resp) = Returns []) \<and>
   (check_for_updates b w persisted = (ev, persisted', Returns ()) \<and> tick w = Returns () \<longrightarrow>
      ticker_loop b (w # ws) persisted =
        (ev @ [Sleep (check_interval b)] @ fst (ticker_loop b ws persisted'),
         snd (ticker_loop b ws persisted'))) \<and>
   (check_for_updates b w persisted = (ev, persisted', Raises Exception) \<longrightarrow>
      ticker_loop b (w # ws) persisted = (ev, persisted', Died Exception)) \<and>
   (fetch w \<noteq> Raises CancelledError \<and> load_raises w = Some Exception \<longrightarrow>
      snd (snd (check_for_updates b w persisted)) = Raises Exception) \<and>
   (get_latest_notifications (fetch w) = (ev1, Returns current) \<and> load_raises w = None \<and>
    any_values (find_new_notifications current persisted) \<and>
    snd (send_notifications b w (find_new_notifications current persisted)) = Raises Exception \<longrightarrow>
      snd (snd (check_for_updates b w persisted)) = Raises Exception)"
  using fetch_failed_empty[of resp] ticker_loop_continues[of b w persisted ev persisted' ws]
    ticker_loop_dies[of b w persisted ev persisted' ws]
    check_for_updates_load_raises[of w Exception b persisted]
    check_for_updates_dispatch_raises[of w ev1 current persisted b Exception]
  by simp

theorem loop_survival_witness:
  "fetch_failed (Raises Exception) \<and>
   snd (get_latest_notifications (Raises Exception)) = Returns [] \<and>
   check_for_updates example_bot (quiet_world\<lparr>fetch := Raises Exception\<rparr>) [] =
     ([HttpGet, Log ERROR ''Fetch error'', LoadState], [], Returns ()) \<and>
   tick (quiet_world\<lparr>fetch := Raises Exception\<rparr>) = Returns () \<and>
   ticker_loop example_bot [quiet_world\<lparr>fetch := Raises Exception\<rparr>] [] =
     ([HttpGet, Log ERROR ''Fetch error'', LoadState, Sleep 300], [], Ticking) \<and>
   fetch (quiet_world\<lparr>load_raises := Some Exception\<rparr>) \<noteq> Raises CancelledError \<and>
   load_raises (quiet_world\<lparr>load_raises := Some Exception\<rparr>) = Some Exception \<and>
   check_for_updates example_bot (quiet_world\<lparr>load_raises := Some Exception\<rparr>) [] =
     ([HttpGet, LoadState], [], Raises Exception) \<and>
   ticker_loop example_bot [quiet_world\<lparr>load_raises := Some Exception\<rparr>, quiet_world] [] =
     ([HttpGet, LoadState], [], Died Exception)"
proof -
  let ?u = "quiet_world\<lparr>fetch := Raises Exception\<rparr>"
  let ?v = "quiet_world\<lparr>load_raises := Some Exception\<rparr>"
  have u: "check_for_updates example_bot ?u [] =
             ([HttpGet, Log ERROR ''Fetch error'', LoadState], [], Returns ())"
    by (simp add: check_for_updates_def get_latest_notifications_def load_state_def
        find_new_empty any_values_empty quiet_world_def)
  have v: "check_for_updates example_bot ?v [] = ([HttpGet, LoadState], [], Raises Exception)"
    by (simp add: check_for_updates_def load_state_def quiet_world_def example_fetch)
  have t: "tick ?u = Returns ()" "fetch ?v \<noteq> Raises CancelledError"
    "load_raises ?v = Some Exception"
    by (simp_all add: quiet_world_def)
  show ?thesis
    using loop_survival[where resp = "Raises Exception" and b = example_bot and w = ?u
        and persisted = "[]" and ev = "[HttpGet, Log ERROR ''Fetch error'', LoadState]"
        and persisted' = "[]" and ws = "[]"]
      loop_survival[where b = example_bot and w = ?v and persisted = "[]"
        and ev = "[HttpGet, LoadState]" and persisted' = "[]" and ws = "[quiet_world]"]
      u v t
    by (simp add: example_bot_def)
qed

end
